theory Spec2Isabelle
  imports Main "HOL-Library.Word" "HOL-Library.Sublist"
begin

section \<open>Data model of \<^verbatim>\<open>reflector.go\<close>\<close>

text \<open>
  The four result structs of the package. Go struct fields become record fields; the field
  names carry a prefix per struct (\<open>fi_\<close>, \<open>ms_\<close>, \<open>mi_\<close>, \<open>si_\<close>) because
  the structs share the names \<^verbatim>\<open>Name\<close> and \<^verbatim>\<open>Fields\<close>. \<^verbatim>\<open>int32\<close> is a
  32-bit word. A \<^verbatim>\<open>*MessageSchema\<close> is an address into an explicit heap of
  schema objects, \<open>None\<close> being the nil pointer; an absent string is Go's zero value \<open>''''\<close>.
\<close>

record FieldInfo =
  fi_Name :: string
  fi_Number :: "32 word"
  fi_Type :: string
  fi_Repeated :: bool

record MessageSchema =
  ms_Name :: string
  ms_Fields :: "FieldInfo list"

type_synonym addr = nat

type_synonym heap = "MessageSchema list"

record MethodInfo =
  mi_Name :: string
  mi_InputType :: string
  mi_OutputType :: string
  mi_InputSchema :: "addr option"
  mi_OutputSchema :: "addr option"

record ServiceInfo =
  si_Name :: string
  si_Methods :: "MethodInfo list"

subsection \<open>The collaborators: protoreflect descriptors and the gRPC server registry\<close>

text \<open>
  The descriptor interfaces of \<^verbatim>\<open>protoreflect\<close>, reduced to the accessors the package
  calls. \<^verbatim>\<open>Kind.String()\<close> is the library's table of kind names.
  \<^verbatim>\<open>FieldNumber\<close> is an \<^verbatim>\<open>int32\<close>, so the conversion \<^verbatim>\<open>int32(field.Number())\<close>
  is the identity. \<open>fd_Message_FullName\<close> is \<^verbatim>\<open>field.Message().FullName()\<close>, which
  the source evaluates only for a field of kind \<^verbatim>\<open>MessageKind\<close>, where the library
  returns a descriptor; a nested message is referred to by its name, so that recursive
  message types are covered. \<^verbatim>\<open>Input()\<close> and \<^verbatim>\<open>Output()\<close> of a method descriptor are
  never nil in the library.
\<close>

datatype Kind =
    BoolKind | EnumKind | Int32Kind | Sint32Kind | Uint32Kind | Int64Kind | Sint64Kind
  | Uint64Kind | Sfixed32Kind | Fixed32Kind | FloatKind | Sfixed64Kind | Fixed64Kind
  | DoubleKind | StringKind | BytesKind | MessageKind | GroupKind

fun Kind_String :: "Kind \<Rightarrow> string" where
  "Kind_String BoolKind = ''bool''"
| "Kind_String EnumKind = ''enum''"
| "Kind_String Int32Kind = ''int32''"
| "Kind_String Sint32Kind = ''sint32''"
| "Kind_String Uint32Kind = ''uint32''"
| "Kind_String Int64Kind = ''int64''"
| "Kind_String Sint64Kind = ''sint64''"
| "Kind_String Uint64Kind = ''uint64''"
| "Kind_String Sfixed32Kind = ''sfixed32''"
| "Kind_String Fixed32Kind = ''fixed32''"
| "Kind_String FloatKind = ''float''"
| "Kind_String Sfixed64Kind = ''sfixed64''"
| "Kind_String Fixed64Kind = ''fixed64''"
| "Kind_String DoubleKind = ''double''"
| "Kind_String StringKind = ''string''"
| "Kind_String BytesKind = ''bytes''"
| "Kind_String MessageKind = ''message''"
| "Kind_String GroupKind = ''group''"

datatype Cardinality = Optional | Required | Repeated

record FieldDescriptor =
  fd_Name :: string
  fd_Number :: "32 word"
  fd_Kind :: Kind
  fd_Cardinality :: Cardinality
  fd_Message_FullName :: string

record MessageDescriptor =
  msg_FullName :: string
  msg_Fields :: "FieldDescriptor list"

record MethodDescriptor =
  mth_Name :: string
  mth_Input :: MessageDescriptor
  mth_Output :: MessageDescriptor

record ServiceDescriptor =
  sd_FullName :: string
  sd_Methods :: "MethodDescriptor list"

record FileDescriptor =
  file_Path :: string
  file_Services :: "ServiceDescriptor list"

text \<open>
  \<^verbatim>\<open>grpc.MethodInfo\<close> and \<^verbatim>\<open>grpc.ServiceInfo\<close>. The value of
  \<^verbatim>\<open>server.GetServiceInfo()\<close> is a Go map from service names to these; the model takes
  its entries as a list, in the order in which the \<^verbatim>\<open>range\<close> of one call visits them.
\<close>

record grpc_MethodInfo =
  gm_Name :: string
  gm_IsClientStream :: bool
  gm_IsServerStream :: bool

record grpc_ServiceInfo =
  gs_Methods :: "grpc_MethodInfo list"

subsection \<open>Errors\<close>

text \<open>
  The three \<^verbatim>\<open>fmt.Errorf\<close> values of the package, one constructor per call site:
  line 91 (malformed name), line 117 (not found), line 126 (nil descriptor). The argument
  is the method name formatted into the message.
\<close>

datatype error = MalformedNameError string | NotFoundError string | NilDescriptorError

fun error_message :: "error \<Rightarrow> string" where
  "error_message (MalformedNameError n) = ''invalid method name format: '' @ n"
| "error_message (NotFoundError n) = ''method descriptor not found for '' @ n"
| "error_message NilDescriptorError = ''message descriptor is nil''"

section \<open>The string functions of the standard library\<close>

text \<open>
  \<^verbatim>\<open>strings.TrimPrefix(s, prefix)\<close> removes one leading occurrence of the prefix.
  \<^verbatim>\<open>strings.Split(s, sep)\<close> for a separator of one byte: the substrings between the
  separators, so that the result has one more element than \<open>s\<close> has separators. The
  scan keeps the segment read so far in \<open>cur\<close> and closes it at each separator and at
  the end of the string.
\<close>

definition TrimPrefix :: "string \<Rightarrow> string \<Rightarrow> string" where
  "TrimPrefix s p = (if prefix p s then drop (length p) s else s)"

fun split_from :: "string \<Rightarrow> char \<Rightarrow> string \<Rightarrow> string list" where
  "split_from [] sep cur = [cur]"
| "split_from (c # cs) sep cur =
     (if c = sep then cur # split_from cs sep [] else split_from cs sep (cur @ [c]))"

definition Split :: "string \<Rightarrow> char \<Rightarrow> string list" where
  "Split s sep = split_from s sep []"

section \<open>getMethodDescriptor\<close>

text \<open>
  \<^verbatim>\<open>RangeFiles\<close> calls the callback on each file in turn and stops when it returns
  false. The variable \<^verbatim>\<open>methodDesc\<close> captured by the callback is the state threaded
  through the iteration; the registry is the list of its files in enumeration order.
\<close>

fun RangeFiles :: "FileDescriptor list \<Rightarrow> (FileDescriptor \<Rightarrow> 's \<Rightarrow> 's \<times> bool) \<Rightarrow> 's \<Rightarrow> 's" where
  "RangeFiles [] f s = s"
| "RangeFiles (fd # fds) f s =
     (case f fd s of (s', continue) \<Rightarrow> if continue then RangeFiles fds f s' else s')"

text \<open>The loop over \<open>j\<close> (lines 104-110): the first method of the service with the name.\<close>

fun methods_loop :: "MethodDescriptor list \<Rightarrow> string \<Rightarrow> MethodDescriptor option" where
  "methods_loop [] name = None"
| "methods_loop (md # mds) name =
     (if mth_Name md = name then Some md else methods_loop mds name)"

text \<open>
  The loop over \<open>i\<close> (lines 100-112). A service with the name whose methods do not match
  does not end the loop.
\<close>

fun services_loop :: "ServiceDescriptor list \<Rightarrow> string \<Rightarrow> string \<Rightarrow> MethodDescriptor option" where
  "services_loop [] serviceName name = None"
| "services_loop (sd # sds) serviceName name =
     (if sd_FullName sd = serviceName
      then (case methods_loop (sd_Methods sd) name of
              Some md \<Rightarrow> Some md
            | None \<Rightarrow> services_loop sds serviceName name)
      else services_loop sds serviceName name)"

text \<open>The callback (lines 98-114): on a match it assigns \<^verbatim>\<open>methodDesc\<close> and returns false.\<close>

definition callback ::
  "string \<Rightarrow> string \<Rightarrow> FileDescriptor \<Rightarrow> MethodDescriptor option \<Rightarrow> MethodDescriptor option \<times> bool" where
  "callback serviceName name fd methodDesc =
     (case services_loop (file_Services fd) serviceName name of
        Some md \<Rightarrow> (Some md, False)
      | None \<Rightarrow> (methodDesc, True))"

definition getMethodDescriptor :: "FileDescriptor list \<Rightarrow> string \<Rightarrow> error + MethodDescriptor" where
  "getMethodDescriptor GlobalFiles fullMethodName =
     (let parts = Split (TrimPrefix fullMethodName ''/'') (CHR ''/'') in
      if length parts \<noteq> 2 then Inl (MalformedNameError fullMethodName)
      else
        let serviceName = parts ! 0;
            methodDesc = RangeFiles GlobalFiles (callback serviceName (parts ! 1)) None
        in case methodDesc of
             None \<Rightarrow> Inl (NotFoundError fullMethodName)
           | Some md \<Rightarrow> Inr md)"

section \<open>getMessageSchema\<close>

text \<open>
  \<^verbatim>\<open>&MessageSchema{...}\<close> allocates a fresh object: the new address is the length of
  the heap. The loop appends to \<^verbatim>\<open>schema.Fields\<close> through the pointer.
\<close>

definition new_schema :: "MessageSchema \<Rightarrow> heap \<Rightarrow> addr \<times> heap" where
  "new_schema s h = (length h, h @ [s])"

fun fields_loop :: "addr \<Rightarrow> FieldDescriptor list \<Rightarrow> heap \<Rightarrow> heap" where
  "fields_loop schema [] h = h"
| "fields_loop schema (field # rest) h =
     (let fieldInfo = \<lparr>fi_Name = fd_Name field,
                       fi_Number = fd_Number field,
                       fi_Type = Kind_String (fd_Kind field),
                       fi_Repeated = (fd_Cardinality field = Repeated)\<rparr>;
          fieldInfo = (if fd_Kind field = MessageKind
                       then fieldInfo\<lparr>fi_Type := fd_Message_FullName field\<rparr>
                       else fieldInfo)
      in fields_loop schema rest
           (h[schema := (h ! schema)\<lparr>ms_Fields := ms_Fields (h ! schema) @ [fieldInfo]\<rparr>]))"

definition getMessageSchema :: "MessageDescriptor option \<Rightarrow> heap \<Rightarrow> (error + addr) \<times> heap" where
  "getMessageSchema msgDesc h =
     (case msgDesc of
        None \<Rightarrow> (Inl NilDescriptorError, h)
      | Some d \<Rightarrow>
          (case new_schema \<lparr>ms_Name = msg_FullName d, ms_Fields = []\<rparr> h of
             (schema, h1) \<Rightarrow> (Inr schema, fields_loop schema (msg_Fields d) h1)))"

section \<open>GetServices\<close>

text \<open>
  The body of the inner loop (lines 56-77) for one method: the \<^verbatim>\<open>MethodInfo\<close> it
  appends, and the heap after the schemas it allocated. An error of
  \<^verbatim>\<open>getMethodDescriptor\<close> or \<^verbatim>\<open>getMessageSchema\<close> skips the assignment and nothing else.
\<close>

definition method_body ::
  "FileDescriptor list \<Rightarrow> string \<Rightarrow> grpc_MethodInfo \<Rightarrow> heap \<Rightarrow> MethodInfo \<times> heap" where
  "method_body GlobalFiles serviceName method h =
     (let methodInfo = \<lparr>mi_Name = gm_Name method, mi_InputType = '''', mi_OutputType = '''',
                        mi_InputSchema = None, mi_OutputSchema = None\<rparr>;
          fullMethodName = ''/'' @ serviceName @ ''/'' @ gm_Name method
      in case getMethodDescriptor GlobalFiles fullMethodName of
           Inl err \<Rightarrow> (methodInfo, h)
         | Inr desc \<Rightarrow>
             (let methodInfo = methodInfo\<lparr>mi_InputType := msg_FullName (mth_Input desc)\<rparr>;
                  methodInfo = methodInfo\<lparr>mi_OutputType := msg_FullName (mth_Output desc)\<rparr>
              in case getMessageSchema (Some (mth_Input desc)) h of
                   (r1, h1) \<Rightarrow>
                     (let methodInfo = (case r1 of
                                          Inr inputSchema \<Rightarrow> methodInfo\<lparr>mi_InputSchema := Some inputSchema\<rparr>
                                        | Inl err \<Rightarrow> methodInfo)
                      in case getMessageSchema (Some (mth_Output desc)) h1 of
                           (r2, h2) \<Rightarrow>
                             ((case r2 of
                                 Inr outputSchema \<Rightarrow> methodInfo\<lparr>mi_OutputSchema := Some outputSchema\<rparr>
                               | Inl err \<Rightarrow> methodInfo), h2))))"

fun methods_range ::
  "FileDescriptor list \<Rightarrow> string \<Rightarrow> grpc_MethodInfo list \<Rightarrow> ServiceInfo \<Rightarrow> heap \<Rightarrow> ServiceInfo \<times> heap" where
  "methods_range GlobalFiles serviceName [] service h = (service, h)"
| "methods_range GlobalFiles serviceName (method # methods) service h =
     (case method_body GlobalFiles serviceName method h of
        (methodInfo, h') \<Rightarrow>
          methods_range GlobalFiles serviceName methods
            (service\<lparr>si_Methods := si_Methods service @ [methodInfo]\<rparr>) h')"

fun services_range ::
  "FileDescriptor list \<Rightarrow> (string \<times> grpc_ServiceInfo) list \<Rightarrow> ServiceInfo list \<Rightarrow> heap \<Rightarrow> ServiceInfo list \<times> heap" where
  "services_range GlobalFiles [] services h = (services, h)"
| "services_range GlobalFiles ((serviceName, info) # rest) services h =
     (case methods_range GlobalFiles serviceName (gs_Methods info)
             \<lparr>si_Name = serviceName, si_Methods = []\<rparr> h of
        (service, h') \<Rightarrow> services_range GlobalFiles rest (services @ [service]) h')"

text \<open>
  \<^verbatim>\<open>GetServices\<close>: the argument \<open>serviceInfo\<close> is the value of
  \<^verbatim>\<open>server.GetServiceInfo()\<close> on the live server. The result is the pair of the Go
  function, the slice and the error (\<open>None\<close> is nil), and the heap after the call.
\<close>

definition GetServices ::
  "FileDescriptor list \<Rightarrow> (string \<times> grpc_ServiceInfo) list \<Rightarrow> heap \<Rightarrow> (ServiceInfo list \<times> error option) \<times> heap" where
  "GetServices GlobalFiles serviceInfo h =
     (case services_range GlobalFiles serviceInfo [] h of
        (services, h') \<Rightarrow> ((services, None), h'))"

section \<open>FormatServices\<close>

text \<open>
  The string builder is the accumulator \<open>sb\<close>; \<^verbatim>\<open>fmt.Sprintf\<close> with \<^verbatim>\<open>%s\<close> verbs is
  concatenation.
\<close>

fun format_methods :: "MethodInfo list \<Rightarrow> string \<Rightarrow> string" where
  "format_methods [] sb = sb"
| "format_methods (method # methods) sb =
     (let sb = sb @ (''    * '' @ mi_Name method);
          sb = (if mi_InputType method \<noteq> '''' \<and> mi_OutputType method \<noteq> ''''
                then sb @ (''('' @ mi_InputType method @ '') returns ('' @ mi_OutputType method @ '')'')
                else sb);
          sb = sb @ [CHR 0x0A]
      in format_methods methods sb)"

fun format_services :: "ServiceInfo list \<Rightarrow> string \<Rightarrow> string" where
  "format_services [] sb = sb"
| "format_services (service # services) sb =
     format_services services
       (format_methods (si_Methods service) (sb @ (''  - '' @ si_Name service @ [CHR 0x0A])))"

definition FormatServices :: "ServiceInfo list \<Rightarrow> string" where
  "FormatServices services = format_services services []"

section \<open>Definitions used in the statements\<close>

text \<open>
  The enumeration order of the registry: every pair of a service and one of its methods,
  files first, then the services of a file, then the methods of a service. A pair matches
  when the service's full name and the method's name are the two segments.
\<close>

definition service_pairs :: "ServiceDescriptor \<Rightarrow> (ServiceDescriptor \<times> MethodDescriptor) list" where
  "service_pairs sd = map (Pair sd) (sd_Methods sd)"

definition file_pairs :: "FileDescriptor \<Rightarrow> (ServiceDescriptor \<times> MethodDescriptor) list" where
  "file_pairs fd = concat (map service_pairs (file_Services fd))"

definition candidates :: "FileDescriptor list \<Rightarrow> (ServiceDescriptor \<times> MethodDescriptor) list" where
  "candidates GlobalFiles = concat (map file_pairs GlobalFiles)"

definition is_match :: "string \<Rightarrow> string \<Rightarrow> ServiceDescriptor \<times> MethodDescriptor \<Rightarrow> bool" where
  "is_match service method p = (sd_FullName (fst p) = service \<and> mth_Name (snd p) = method)"

text \<open>
  The schema of a message as the specification words it (section 4.1): name and number
  copied, the type the kind's name unless the kind is message, repeated iff the
  cardinality is.
\<close>

definition fieldInfo_of :: "FieldDescriptor \<Rightarrow> FieldInfo" where
  "fieldInfo_of field =
     \<lparr>fi_Name = fd_Name field,
      fi_Number = fd_Number field,
      fi_Type = (if fd_Kind field = MessageKind then fd_Message_FullName field
                 else Kind_String (fd_Kind field)),
      fi_Repeated = (fd_Cardinality field = Repeated)\<rparr>"

definition schema_of :: "MessageDescriptor \<Rightarrow> MessageSchema" where
  "schema_of d = \<lparr>ms_Name = msg_FullName d, ms_Fields = map fieldInfo_of (msg_Fields d)\<rparr>"

text \<open>Reading a schema pointer in a heap; nil and a dangling address read as \<open>None\<close>.\<close>

definition deref :: "heap \<Rightarrow> addr option \<Rightarrow> MessageSchema option" where
  "deref h p = (case p of None \<Rightarrow> None
                | Some a \<Rightarrow> if a < length h then Some (h ! a) else None)"

text \<open>
  What the enumeration does for one method, as the specification words it (section 4.2):
  the name is the registered one; when the lookup of \<open>/<serviceName>/<methodName>\<close> fails
  the type names and schema pointers are absent; when it succeeds the type names are the
  full names of the descriptor's input and output and the two pointers lead, in heap \<open>h\<close>,
  to the schemas of the input and the output. The relation mentions no other method.
\<close>

definition method_resolved ::
  "FileDescriptor list \<Rightarrow> heap \<Rightarrow> string \<Rightarrow> grpc_MethodInfo \<Rightarrow> MethodInfo \<Rightarrow> bool" where
  "method_resolved GlobalFiles h serviceName method methodInfo =
     (mi_Name methodInfo = gm_Name method \<and>
      (case getMethodDescriptor GlobalFiles (''/'' @ serviceName @ ''/'' @ gm_Name method) of
         Inl err \<Rightarrow>
           mi_InputType methodInfo = '''' \<and> mi_OutputType methodInfo = '''' \<and>
           mi_InputSchema methodInfo = None \<and> mi_OutputSchema methodInfo = None
       | Inr desc \<Rightarrow>
           mi_InputType methodInfo = msg_FullName (mth_Input desc) \<and>
           mi_OutputType methodInfo = msg_FullName (mth_Output desc) \<and>
           deref h (mi_InputSchema methodInfo) = Some (schema_of (mth_Input desc)) \<and>
           deref h (mi_OutputSchema methodInfo) = Some (schema_of (mth_Output desc))))"

definition service_resolved ::
  "FileDescriptor list \<Rightarrow> heap \<Rightarrow> string \<times> grpc_ServiceInfo \<Rightarrow> ServiceInfo \<Rightarrow> bool" where
  "service_resolved GlobalFiles h entry service =
     (si_Name service = fst entry \<and>
      list_all2 (method_resolved GlobalFiles h (fst entry))
        (gs_Methods (snd entry)) (si_Methods service))"

text \<open>
  The invariant of the protobuf library on the names the enumeration reads: every message
  that is the input or the output of a registered method has a non-empty full name (an
  empty full name is not a valid name, and the library builds no descriptor with one).
\<close>

definition full_names_nonempty :: "FileDescriptor list \<Rightarrow> bool" where
  "full_names_nonempty GlobalFiles =
     (\<forall>fd\<in>set GlobalFiles. \<forall>sd\<in>set (file_Services fd). \<forall>md\<in>set (sd_Methods sd).
        msg_FullName (mth_Input md) \<noteq> '''' \<and> msg_FullName (mth_Output md) \<noteq> '''')"

text \<open>The lines of the compact listing as the specification words them (section 4.3).\<close>

definition method_line :: "MethodInfo \<Rightarrow> string" where
  "method_line method =
     (if mi_InputType method \<noteq> '''' \<and> mi_OutputType method \<noteq> ''''
      then ''    * '' @ mi_Name method @ ''('' @ mi_InputType method @ '') returns (''
             @ mi_OutputType method @ '')'' @ [CHR 0x0A]
      else ''    * '' @ mi_Name method @ [CHR 0x0A])"

definition service_block :: "ServiceInfo \<Rightarrow> string" where
  "service_block service =
     ''  - '' @ si_Name service @ [CHR 0x0A] @ concat (map method_line (si_Methods service))"

subsection \<open>The scenario of the specification's section 8\<close>

text \<open>
  A server registers \<open>pkg.Greeter\<close> with the method \<open>SayHello\<close> from
  \<open>pkg.HelloRequest\<close> (a string \<open>name\<close>, number 1) to \<open>pkg.HelloReply\<close> (a string
  \<open>message\<close>, number 1). \<open>Node\<close> is a message with a repeated field of its own type.
\<close>

definition HelloRequest :: MessageDescriptor where
  "HelloRequest =
     \<lparr>msg_FullName = ''pkg.HelloRequest'',
      msg_Fields = [\<lparr>fd_Name = ''name'', fd_Number = 1, fd_Kind = StringKind,
                     fd_Cardinality = Optional, fd_Message_FullName = ''''\<rparr>]\<rparr>"

definition HelloReply :: MessageDescriptor where
  "HelloReply =
     \<lparr>msg_FullName = ''pkg.HelloReply'',
      msg_Fields = [\<lparr>fd_Name = ''message'', fd_Number = 1, fd_Kind = StringKind,
                     fd_Cardinality = Optional, fd_Message_FullName = ''''\<rparr>]\<rparr>"

definition SayHello :: MethodDescriptor where
  "SayHello = \<lparr>mth_Name = ''SayHello'', mth_Input = HelloRequest, mth_Output = HelloReply\<rparr>"

definition Greeter :: ServiceDescriptor where
  "Greeter = \<lparr>sd_FullName = ''pkg.Greeter'', sd_Methods = [SayHello]\<rparr>"

definition greeter_file :: FileDescriptor where
  "greeter_file = \<lparr>file_Path = ''greeter.proto'', file_Services = [Greeter]\<rparr>"

definition greeter_server :: "(string \<times> grpc_ServiceInfo) list" where
  "greeter_server =
     [(''pkg.Greeter'',
       \<lparr>gs_Methods = [\<lparr>gm_Name = ''SayHello'', gm_IsClientStream = False,
                       gm_IsServerStream = False\<rparr>,
                      \<lparr>gm_Name = ''Unloaded'', gm_IsClientStream = False,
                       gm_IsServerStream = False\<rparr>]\<rparr>)]"

definition Node :: MessageDescriptor where
  "Node =
     \<lparr>msg_FullName = ''pkg.Node'',
      msg_Fields = [\<lparr>fd_Name = ''id'', fd_Number = 1, fd_Kind = Int64Kind,
                     fd_Cardinality = Optional, fd_Message_FullName = ''''\<rparr>,
                    \<lparr>fd_Name = ''children'', fd_Number = 3, fd_Kind = MessageKind,
                     fd_Cardinality = Repeated, fd_Message_FullName = ''pkg.Node''\<rparr>,
                    \<lparr>fd_Name = ''tags'', fd_Number = 2, fd_Kind = StringKind,
                     fd_Cardinality = Repeated, fd_Message_FullName = ''''\<rparr>]\<rparr>"

section \<open>Lemmas on the string functions\<close>

lemma length_split_from: "length (split_from s sep cur) = Suc (count_list s sep)"
  by (induction s arbitrary: cur) auto

lemma length_Split: "length (Split s sep) = Suc (count_list s sep)"
  by (simp add: Split_def length_split_from)

lemma split_from_no_sep: "sep \<notin> set s \<Longrightarrow> split_from s sep cur = [cur @ s]"
  by (induction s arbitrary: cur) auto

lemma split_from_append_sep:
  "sep \<notin> set a \<Longrightarrow> split_from (a @ sep # b) sep cur = (cur @ a) # split_from b sep []"
  by (induction a arbitrary: cur) auto

lemma Split_no_sep: "sep \<notin> set s \<Longrightarrow> Split s sep = [s]"
  by (simp add: Split_def split_from_no_sep)

lemma Split_append_sep: "sep \<notin> set a \<Longrightarrow> Split (a @ sep # b) sep = a # Split b sep"
  by (simp add: Split_def split_from_append_sep)

lemma parts_well_formed:
  assumes "CHR ''/'' \<notin> set service" "CHR ''/'' \<notin> set method"
  shows "Split (TrimPrefix (''/'' @ service @ ''/'' @ method) ''/'') (CHR ''/'') = [service, method]"
  using assms by (simp add: TrimPrefix_def Split_append_sep Split_no_sep)

section \<open>The scan of the registry is a search for the first match\<close>

lemma find_app:
  "find P (xs @ ys) = (case find P xs of None \<Rightarrow> find P ys | Some x \<Rightarrow> Some x)"
  by (induction xs) auto

lemma methods_loop_find:
  "methods_loop mds name = find (\<lambda>md. mth_Name md = name) mds"
  by (induction mds) auto

lemma find_service_pairs:
  "find (is_match service method) (service_pairs sd) =
     (if sd_FullName sd = service
      then map_option (Pair sd) (methods_loop (sd_Methods sd) method)
      else None)"
proof -
  have "find (is_match service method) (map (Pair sd) mds) =
     (if sd_FullName sd = service
      then map_option (Pair sd) (methods_loop mds method)
      else None)" for mds
    by (induction mds) (auto simp: is_match_def)
  then show ?thesis by (simp add: service_pairs_def)
qed

lemma services_loop_find:
  "services_loop sds service method =
     map_option snd (find (is_match service method) (concat (map service_pairs sds)))"
  by (induction sds) (auto simp: find_app find_service_pairs split: option.splits)

lemma callback_find:
  "callback service method fd s =
     (case find (is_match service method) (file_pairs fd) of
        None \<Rightarrow> (s, True)
      | Some p \<Rightarrow> (Some (snd p), False))"
  by (simp add: callback_def services_loop_find file_pairs_def split: option.splits)

lemma candidates_append: "candidates (xs @ ys) = candidates xs @ candidates ys"
  by (simp add: candidates_def)

lemma candidates_Cons: "candidates (fd # ys) = file_pairs fd @ candidates ys"
  by (simp add: candidates_def)

lemma in_candidates_iff:
  "(sd, md) \<in> set (candidates GlobalFiles) \<longleftrightarrow>
     (\<exists>fd\<in>set GlobalFiles. sd \<in> set (file_Services fd) \<and> md \<in> set (sd_Methods sd))"
  by (auto simp: candidates_def file_pairs_def service_pairs_def)

lemma RangeFiles_find:
  "RangeFiles GlobalFiles (callback service method) s =
     (case find (is_match service method) (candidates GlobalFiles) of
        None \<Rightarrow> s
      | Some p \<Rightarrow> Some (snd p))"
  by (induction GlobalFiles arbitrary: s)
     (auto simp: candidates_def callback_find find_app split: option.splits)

lemma getMethodDescriptor_parts:
  assumes "Split (TrimPrefix fullMethodName ''/'') (CHR ''/'') = [service, method]"
  shows "getMethodDescriptor GlobalFiles fullMethodName =
     (case find (is_match service method) (candidates GlobalFiles) of
        None \<Rightarrow> Inl (NotFoundError fullMethodName)
      | Some p \<Rightarrow> Inr (snd p))"
  using assms by (simp add: getMethodDescriptor_def RangeFiles_find split: option.splits)

section \<open>The schema object that getMessageSchema allocates\<close>

lemma fields_loop_eq:
  "schema < length h \<Longrightarrow>
   fields_loop schema fs h =
     h[schema := (h ! schema)\<lparr>ms_Fields := ms_Fields (h ! schema) @ map fieldInfo_of fs\<rparr>]"
proof (induction fs arbitrary: h)
  case Nil
  then show ?case by simp
next
  case (Cons f fs)
  then show ?case by (simp add: fieldInfo_of_def Let_def)
qed

lemma getMessageSchema_Some:
  "getMessageSchema (Some d) h = (Inr (length h), h @ [schema_of d])"
  by (simp add: getMessageSchema_def new_schema_def fields_loop_eq schema_of_def)

lemma getMessageSchema_None:
  "getMessageSchema None h = (Inl NilDescriptorError, h)"
  by (simp add: getMessageSchema_def)

section \<open>The enumeration resolves every method on its own\<close>

lemma deref_prefix:
  "prefix h h' \<Longrightarrow> deref h p = Some s \<Longrightarrow> deref h' p = Some s"
  by (auto simp: deref_def prefix_def nth_append split: option.splits if_splits)

lemma method_resolved_prefix:
  "prefix h h' \<Longrightarrow> method_resolved G h sn m mi \<Longrightarrow> method_resolved G h' sn m mi"
  by (auto simp: method_resolved_def deref_prefix split: sum.splits)

lemma service_resolved_prefix:
  "prefix h h' \<Longrightarrow> service_resolved G h e s \<Longrightarrow> service_resolved G h' e s"
  unfolding service_resolved_def
  by (auto elim!: list_all2_mono intro: method_resolved_prefix)

lemma method_body_Inl:
  "getMethodDescriptor G (''/'' @ sn @ ''/'' @ gm_Name m) = Inl e \<Longrightarrow>
   method_body G sn m h =
     (\<lparr>mi_Name = gm_Name m, mi_InputType = '''', mi_OutputType = '''',
       mi_InputSchema = None, mi_OutputSchema = None\<rparr>, h)"
  by (simp add: method_body_def)

lemma method_body_Inr:
  "getMethodDescriptor G (''/'' @ sn @ ''/'' @ gm_Name m) = Inr desc \<Longrightarrow>
   method_body G sn m h =
     (\<lparr>mi_Name = gm_Name m, mi_InputType = msg_FullName (mth_Input desc),
       mi_OutputType = msg_FullName (mth_Output desc),
       mi_InputSchema = Some (length h), mi_OutputSchema = Some (Suc (length h))\<rparr>,
      h @ [schema_of (mth_Input desc), schema_of (mth_Output desc)])"
  by (simp add: method_body_def getMessageSchema_Some)

lemma method_body_resolved:
  assumes "method_body G sn m h = (mi, h')"
  shows "prefix h h' \<and> method_resolved G h' sn m mi"
proof (cases "getMethodDescriptor G (''/'' @ sn @ ''/'' @ gm_Name m)")
  case (Inl e)
  with assms method_body_Inl [OF Inl, of h] show ?thesis
    by (auto simp: method_resolved_def)
next
  case (Inr desc)
  with assms method_body_Inr [OF Inr, of h] show ?thesis
    by (auto simp: method_resolved_def deref_def nth_append)
qed

lemma methods_range_resolved:
  assumes "methods_range G sn ms service h = (service', h')"
  shows "prefix h h' \<and> si_Name service' = si_Name service \<and>
         (\<exists>new. si_Methods service' = si_Methods service @ new \<and>
                 list_all2 (method_resolved G h' sn) ms new)"
  using assms
proof (induction ms arbitrary: service h)
  case Nil
  then show ?case by simp
next
  case (Cons m ms)
  obtain mi h1 where body: "method_body G sn m h = (mi, h1)"
    by (cases "method_body G sn m h")
  with Cons.prems have rest:
    "methods_range G sn ms (service\<lparr>si_Methods := si_Methods service @ [mi]\<rparr>) h1 = (service', h')"
    by simp
  from method_body_resolved [OF body] have p1: "prefix h h1" and r1: "method_resolved G h1 sn m mi"
    by simp_all
  from Cons.IH [OF rest] obtain new where p2: "prefix h1 h'"
    and nm: "si_Name service' = si_Name service"
    and new: "si_Methods service' = (si_Methods service @ [mi]) @ new"
    and all: "list_all2 (method_resolved G h' sn) ms new"
    by auto
  from r1 p2 have "method_resolved G h' sn m mi" by (rule method_resolved_prefix [rotated])
  with all have "list_all2 (method_resolved G h' sn) (m # ms) (mi # new)" by simp
  moreover from new have "si_Methods service' = si_Methods service @ (mi # new)" by simp
  moreover from p1 p2 have "prefix h h'" by (rule prefix_order.trans)
  ultimately show ?case using nm by blast
qed

lemma services_range_resolved:
  assumes "services_range G entries services h = (services', h')"
  shows "prefix h h' \<and>
         (\<exists>new. services' = services @ new \<and> list_all2 (service_resolved G h') entries new)"
  using assms
proof (induction entries arbitrary: services h)
  case Nil
  then show ?case by simp
next
  case (Cons e entries)
  obtain sn info where e: "e = (sn, info)" by (cases e)
  obtain service h1 where inner:
    "methods_range G sn (gs_Methods info) \<lparr>si_Name = sn, si_Methods = []\<rparr> h = (service, h1)"
    by (cases "methods_range G sn (gs_Methods info) \<lparr>si_Name = sn, si_Methods = []\<rparr> h")
  with Cons.prems e have rest:
    "services_range G entries (services @ [service]) h1 = (services', h')"
    by simp
  from methods_range_resolved [OF inner] have p1: "prefix h h1"
    and r1: "service_resolved G h1 e service"
    by (auto simp: service_resolved_def e)
  from Cons.IH [OF rest] obtain new where p2: "prefix h1 h'"
    and new: "services' = (services @ [service]) @ new"
    and all: "list_all2 (service_resolved G h') entries new"
    by auto
  from p2 r1 have "service_resolved G h' e service" by (rule service_resolved_prefix)
  with all have "list_all2 (service_resolved G h') (e # entries) (service # new)" by simp
  moreover from new have "services' = services @ (service # new)" by simp
  moreover from p1 p2 have "prefix h h'" by (rule prefix_order.trans)
  ultimately show ?case by blast
qed

lemma GetServices_resolved:
  assumes "GetServices G serviceInfo h = ((services, err), h')"
  shows "err = None \<and> prefix h h' \<and> list_all2 (service_resolved G h') serviceInfo services"
proof -
  from assms have "services_range G serviceInfo [] h = (services, h')" and "err = None"
    by (auto simp: GetServices_def split: prod.splits)
  with services_range_resolved [of G serviceInfo "[]" h services h'] show ?thesis
    by auto
qed

lemma list_all2_set2:
  "list_all2 P xs ys \<Longrightarrow> y \<in> set ys \<Longrightarrow> \<exists>x\<in>set xs. P x y"
  by (induction rule: list_all2_induct) auto

lemma getMethodDescriptor_Inr_mem:
  assumes "getMethodDescriptor G n = Inr md"
  shows "\<exists>fd\<in>set G. \<exists>sd\<in>set (file_Services fd). md \<in> set (sd_Methods sd)"
proof -
  let ?parts = "Split (TrimPrefix n ''/'') (CHR ''/'')"
  let ?P = "is_match (?parts ! 0) (?parts ! 1)"
  from assms obtain p where p: "find ?P (candidates G) = Some p" and md: "snd p = md"
    by (auto simp: getMethodDescriptor_def Let_def RangeFiles_find
             split: if_splits option.splits)
  from p have "\<exists>i<length (candidates G). ?P (candidates G ! i) \<and> p = candidates G ! i \<and>
      (\<forall>j<i. \<not> ?P (candidates G ! j))"
    by (simp only: find_Some_iff)
  then have "p \<in> set (candidates G)"
    by (elim exE conjE) simp
  with md have "(fst p, md) \<in> set (candidates G)" by (cases p) simp
  then show ?thesis by (auto simp: in_candidates_iff)
qed

lemma method_resolved_present:
  assumes "full_names_nonempty G" and "method_resolved G h sn m mi"
  shows "(mi_InputSchema mi \<noteq> None \<longrightarrow> mi_InputType mi \<noteq> '''') \<and>
         (mi_OutputSchema mi \<noteq> None \<longrightarrow> mi_OutputType mi \<noteq> '''') \<and>
         (mi_InputType mi = '''' \<longleftrightarrow> mi_OutputType mi = '''')"
proof (cases "getMethodDescriptor G (''/'' @ sn @ ''/'' @ gm_Name m)")
  case (Inl e)
  with assms(2) show ?thesis by (simp add: method_resolved_def)
next
  case (Inr desc)
  from getMethodDescriptor_Inr_mem [OF Inr] assms(1)
  have "msg_FullName (mth_Input desc) \<noteq> '''' \<and> msg_FullName (mth_Output desc) \<noteq> ''''"
    unfolding full_names_nonempty_def by blast
  with Inr assms(2) show ?thesis by (simp add: method_resolved_def)
qed

lemma GetServices_each_method:
  assumes "GetServices G serviceInfo h = ((services, err), h')"
    and "service \<in> set services" and "mi \<in> set (si_Methods service)"
  shows "\<exists>entry\<in>set serviceInfo. \<exists>m\<in>set (gs_Methods (snd entry)).
           method_resolved G h' (fst entry) m mi"
proof -
  from GetServices_resolved [OF assms(1)]
  have "list_all2 (service_resolved G h') serviceInfo services" by simp
  from list_all2_set2 [OF this assms(2)] obtain entry
    where e: "entry \<in> set serviceInfo" and r: "service_resolved G h' entry service"
    by blast
  from r have "list_all2 (method_resolved G h' (fst entry)) (gs_Methods (snd entry))
      (si_Methods service)"
    by (simp add: service_resolved_def)
  from list_all2_set2 [OF this assms(3)] e show ?thesis by blast
qed

lemma list_all2_map_eq:
  "list_all2 (\<lambda>x y. f y = g x) xs ys \<Longrightarrow> map f ys = map g xs"
  by (induction rule: list_all2_induct) auto

lemma service_resolved_names:
  assumes "list_all2 (service_resolved G h) serviceInfo services"
  shows "map si_Name services = map fst serviceInfo"
    and "map (\<lambda>service. map mi_Name (si_Methods service)) services =
         map (\<lambda>entry. map gm_Name (gs_Methods (snd entry))) serviceInfo"
proof -
  from assms have "list_all2 (\<lambda>e s. si_Name s = fst e) serviceInfo services"
    by (rule list_all2_mono) (simp add: service_resolved_def)
  then show "map si_Name services = map fst serviceInfo"
    by (rule list_all2_map_eq)
  have "map mi_Name (si_Methods s) = map gm_Name (gs_Methods (snd e))"
    if "service_resolved G h e s" for e s
  proof -
    from that have "list_all2 (\<lambda>m mi. mi_Name mi = gm_Name m) (gs_Methods (snd e)) (si_Methods s)"
      unfolding service_resolved_def
      by (auto elim!: list_all2_mono simp: method_resolved_def)
    then show ?thesis by (rule list_all2_map_eq)
  qed
  with assms have "list_all2 (\<lambda>e s. map mi_Name (si_Methods s) = map gm_Name (gs_Methods (snd e)))
      serviceInfo services"
    by (auto elim!: list_all2_mono)
  then show "map (\<lambda>service. map mi_Name (si_Methods service)) services =
         map (\<lambda>entry. map gm_Name (gs_Methods (snd entry))) serviceInfo"
    by (rule list_all2_map_eq)
qed

section \<open>The compact listing is the concatenation of its lines\<close>

lemma format_methods_eq:
  "format_methods methods sb = sb @ concat (map method_line methods)"
  by (induction methods arbitrary: sb) (simp_all add: method_line_def Let_def)

lemma format_services_eq:
  "format_services services sb = sb @ concat (map service_block services)"
  by (induction services arbitrary: sb) (simp_all add: service_block_def format_methods_eq)

section \<open>The claims\<close>

text \<open>
  C1: \<^verbatim>\<open>GetServices\<close> does not fail because a method's descriptor cannot be resolved.
  For every registry, every server registry and every heap the error is nil and the
  result has, in order, one \<^verbatim>\<open>ServiceInfo\<close> per registered service with its name and,
  in order, one \<^verbatim>\<open>MethodInfo\<close> per registered method with its name. Each
  \<^verbatim>\<open>MethodInfo\<close> is determined by the lookup of its own method alone
  (\<open>method_resolved\<close>): after a failed lookup the type names are empty and the schema
  pointers nil, after a successful one both type names are set and both pointers lead to
  the schemas of the input and output messages, whatever happened to the other methods.
  A server with no registered service gives the empty sequence, a nil error and an
  unchanged heap.
\<close>

theorem GetServices_every_method:
  "(case GetServices GlobalFiles serviceInfo h of
      ((services, err), h') \<Rightarrow>
        err = None \<and>
        map si_Name services = map fst serviceInfo \<and>
        map (\<lambda>service. map mi_Name (si_Methods service)) services =
          map (\<lambda>entry. map gm_Name (gs_Methods (snd entry))) serviceInfo \<and>
        list_all2 (service_resolved GlobalFiles h') serviceInfo services) \<and>
   GetServices GlobalFiles [] h = (([], None), h)"
proof -
  obtain services err h' where g: "GetServices GlobalFiles serviceInfo h = ((services, err), h')"
    by (metis surj_pair)
  from GetServices_resolved [OF g]
  have e: "err = None" and r: "list_all2 (service_resolved GlobalFiles h') serviceInfo services"
    by simp_all
  from e r service_resolved_names [OF r] g show ?thesis
    by (simp add: GetServices_def)
qed

text \<open>
  The scenario: \<open>SayHello\<close> is resolved and enriched, the method \<open>Unloaded\<close> of the
  same service has no descriptor and is listed with absent fields.
\<close>

theorem GetServices_every_method_witness:
  "GetServices [greeter_file] greeter_server [] =
     (([\<lparr>si_Name = ''pkg.Greeter'',
         si_Methods =
           [\<lparr>mi_Name = ''SayHello'', mi_InputType = ''pkg.HelloRequest'',
             mi_OutputType = ''pkg.HelloReply'',
             mi_InputSchema = Some 0, mi_OutputSchema = Some 1\<rparr>,
            \<lparr>mi_Name = ''Unloaded'', mi_InputType = '''', mi_OutputType = '''',
             mi_InputSchema = None, mi_OutputSchema = None\<rparr>]\<rparr>], None),
      [schema_of HelloRequest, schema_of HelloReply]) \<and>
   list_all2 (service_resolved [greeter_file] [schema_of HelloRequest, schema_of HelloReply])
     greeter_server (fst (fst (GetServices [greeter_file] greeter_server [])))"
proof -
  have val: "GetServices [greeter_file] greeter_server [] =
     (([\<lparr>si_Name = ''pkg.Greeter'',
         si_Methods =
           [\<lparr>mi_Name = ''SayHello'', mi_InputType = ''pkg.HelloRequest'',
             mi_OutputType = ''pkg.HelloReply'',
             mi_InputSchema = Some 0, mi_OutputSchema = Some 1\<rparr>,
            \<lparr>mi_Name = ''Unloaded'', mi_InputType = '''', mi_OutputType = '''',
             mi_InputSchema = None, mi_OutputSchema = None\<rparr>]\<rparr>], None),
      [schema_of HelloRequest, schema_of HelloReply])"
    by (simp add: GetServices_def greeter_server_def method_body_def getMethodDescriptor_def
          Split_def TrimPrefix_def callback_def greeter_file_def Greeter_def SayHello_def
          getMessageSchema_Some HelloRequest_def HelloReply_def)
  with GetServices_every_method
    [where GlobalFiles = "[greeter_file]" and serviceInfo = greeter_server and h = "[]"]
  show ?thesis
    by simp
qed

text \<open>
  C2 (as amended): \<^verbatim>\<open>getMethodDescriptor\<close> fails with the malformed-name error exactly
  when the input, after one leading slash is stripped, does not split at \<open>/\<close> into exactly
  two segments, that is, when it does not hold exactly one further \<open>/\<close>. The segments may
  be empty: the source tests \<^verbatim>\<open>len(parts) != 2\<close> and nothing else.
\<close>

theorem getMethodDescriptor_malformed_iff:
  "((\<exists>n. getMethodDescriptor GlobalFiles fullMethodName = Inl (MalformedNameError n)) \<longleftrightarrow>
      length (Split (TrimPrefix fullMethodName ''/'') (CHR ''/'')) \<noteq> 2) \<and>
   ((getMethodDescriptor GlobalFiles fullMethodName = Inl (MalformedNameError fullMethodName)) \<longleftrightarrow>
      count_list (TrimPrefix fullMethodName ''/'') (CHR ''/'') \<noteq> 1)"
  by (simp add: getMethodDescriptor_def Let_def length_Split split: option.splits)

text \<open>
  Against C2 as stated: \<open>/svc/\<close> has an empty method segment and \<open>//m\<close> an empty service
  segment; both split into two segments, are looked up, and give the not-found error.
\<close>

theorem getMethodDescriptor_empty_segment_counterexample:
  "Split (TrimPrefix ''/svc/'' ''/'') (CHR ''/'') = [''svc'', ''''] \<and>
   getMethodDescriptor [] ''/svc/'' = Inl (NotFoundError ''/svc/'') \<and>
   Split (TrimPrefix ''//m'' ''/'') (CHR ''/'') = ['''', ''m''] \<and>
   getMethodDescriptor [] ''//m'' = Inl (NotFoundError ''//m'')"
  by (simp add: getMethodDescriptor_def Split_def TrimPrefix_def)

text \<open>
  C3: for a name \<open>/<service>/<method>\<close> whose segments hold no slash, and a registry in
  which some file declares a service with that full name having a method with that name,
  \<^verbatim>\<open>getMethodDescriptor\<close> returns a descriptor \<open>md\<close> named \<open>method\<close> that belongs to a
  service \<open>sd\<close> whose full name is \<open>service\<close>. The pair \<open>(sd, md)\<close> is the first
  match in the registry's enumeration order (position \<open>i\<close> of \<open>candidates\<close>, no match
  before it). The scan stops there: the callback returns false on the file \<open>fd\<close> of the
  match, and whatever follows that file in the registry has no influence on the result.
\<close>

theorem getMethodDescriptor_first_match:
  assumes "CHR ''/'' \<notin> set service" and "CHR ''/'' \<notin> set method"
    and "fd0 \<in> set GlobalFiles" and "sd0 \<in> set (file_Services fd0)"
    and "md0 \<in> set (sd_Methods sd0)"
    and "sd_FullName sd0 = service" and "mth_Name md0 = method"
  shows "\<exists>sd md i pre fd post.
      getMethodDescriptor GlobalFiles (''/'' @ service @ ''/'' @ method) = Inr md \<and>
      mth_Name md = method \<and> sd_FullName sd = service \<and> md \<in> set (sd_Methods sd) \<and>
      i < length (candidates GlobalFiles) \<and> candidates GlobalFiles ! i = (sd, md) \<and>
      (\<forall>j<i. \<not> is_match service method (candidates GlobalFiles ! j)) \<and>
      GlobalFiles = pre @ fd # post \<and> sd \<in> set (file_Services fd) \<and>
      snd (callback service method fd None) = False \<and>
      (\<forall>post'. getMethodDescriptor (pre @ fd # post') (''/'' @ service @ ''/'' @ method) = Inr md)"
proof -
  let ?P = "is_match service method"
  let ?name = "''/'' @ service @ ''/'' @ method"
  let ?hit = "\<lambda>fd. \<exists>p\<in>set (file_pairs fd). ?P p"
  have parts: "Split (TrimPrefix ?name ''/'') (CHR ''/'') = [service, method]"
    using assms(1,2) by (rule parts_well_formed)
  have "(sd0, md0) \<in> set (file_pairs fd0)"
    using assms(4,5) by (auto simp: file_pairs_def service_pairs_def)
  moreover have "?P (sd0, md0)"
    using assms(6,7) by (simp add: is_match_def)
  ultimately have "\<exists>fd\<in>set GlobalFiles. ?hit fd"
    using assms(3) by blast
  then obtain pre fd post where G: "GlobalFiles = pre @ fd # post"
    and hit: "?hit fd" and pre: "\<forall>f\<in>set pre. \<not> ?hit f"
    using split_list_first_prop [of GlobalFiles ?hit] by blast
  have pre_None: "find ?P (candidates pre) = None"
    using pre by (auto simp: find_None_iff candidates_def)
  from hit obtain p where p: "find ?P (file_pairs fd) = Some p"
    by (cases "find ?P (file_pairs fd)") (auto simp: find_None_iff)
  obtain sd md where sdmd: "p = (sd, md)" by (cases p)
  have found: "find ?P (candidates (pre @ fd # post')) = Some (sd, md)" for post'
    using pre_None p sdmd by (simp add: candidates_append candidates_Cons find_app)
  have res: "getMethodDescriptor (pre @ fd # post') ?name = Inr md" for post'
    using getMethodDescriptor_parts [OF parts, of "pre @ fd # post'"] found [of post']
    by simp
  from found [of post] G have "find ?P (candidates GlobalFiles) = Some (sd, md)"
    by simp
  then have "\<exists>i<length (candidates GlobalFiles). ?P (candidates GlobalFiles ! i) \<and>
      (sd, md) = candidates GlobalFiles ! i \<and> (\<forall>j<i. \<not> ?P (candidates GlobalFiles ! j))"
    by (simp only: find_Some_iff)
  then obtain i where i: "i < length (candidates GlobalFiles)"
    "candidates GlobalFiles ! i = (sd, md)" "?P (sd, md)"
    "\<forall>j<i. \<not> ?P (candidates GlobalFiles ! j)"
    by (elim exE conjE) simp
  from p sdmd have "\<exists>k<length (file_pairs fd). ?P (file_pairs fd ! k) \<and>
      (sd, md) = file_pairs fd ! k \<and> (\<forall>j<k. \<not> ?P (file_pairs fd ! j))"
    by (simp only: find_Some_iff)
  then have "(sd, md) \<in> set (file_pairs fd)"
    by (elim exE conjE) simp
  then have mem: "sd \<in> set (file_Services fd)" "md \<in> set (sd_Methods sd)"
    by (auto simp: file_pairs_def service_pairs_def)
  have stop: "snd (callback service method fd None) = False"
    using p by (simp add: callback_find)
  from i(3) have names: "mth_Name md = method" "sd_FullName sd = service"
    by (simp_all add: is_match_def)
  have r0: "getMethodDescriptor GlobalFiles ?name = Inr md"
    using res [of post] G by simp
  have all: "\<forall>post'. getMethodDescriptor (pre @ fd # post') ?name = Inr md"
    using res by simp
  show ?thesis
    apply (rule exI [of _ sd], rule exI [of _ md], rule exI [of _ i])
    apply (rule exI [of _ pre], rule exI [of _ fd], rule exI [of _ post])
    using r0 all G names mem i(1,2,4) stop by simp
qed

text \<open>
  Two files declare \<open>pkg.Greeter\<close> with a method \<open>SayHello\<close>; the descriptor of the
  first file is the one returned.
\<close>

theorem getMethodDescriptor_first_match_witness:
  "CHR ''/'' \<notin> set ''pkg.Greeter'' \<and> CHR ''/'' \<notin> set ''SayHello'' \<and>
   Greeter \<in> set (file_Services greeter_file) \<and> SayHello \<in> set (sd_Methods Greeter) \<and>
   sd_FullName Greeter = ''pkg.Greeter'' \<and> mth_Name SayHello = ''SayHello'' \<and>
   (\<exists>md. getMethodDescriptor
           [greeter_file,
            \<lparr>file_Path = ''other.proto'',
             file_Services =
               [\<lparr>sd_FullName = ''pkg.Greeter'',
                 sd_Methods = [\<lparr>mth_Name = ''SayHello'', mth_Input = HelloReply,
                                mth_Output = HelloRequest\<rparr>]\<rparr>]\<rparr>]
           ''/pkg.Greeter/SayHello'' = Inr md \<and>
         mth_Name md = ''SayHello'' \<and> md = SayHello)"
proof -
  let ?G = "[greeter_file,
            \<lparr>file_Path = ''other.proto'',
             file_Services =
               [\<lparr>sd_FullName = ''pkg.Greeter'',
                 sd_Methods = [\<lparr>mth_Name = ''SayHello'', mth_Input = HelloReply,
                                mth_Output = HelloRequest\<rparr>]\<rparr>]\<rparr>]"
  have h1: "CHR ''/'' \<notin> set ''pkg.Greeter''" and h2: "CHR ''/'' \<notin> set ''SayHello''"
    by simp_all
  have h3: "greeter_file \<in> set ?G" by simp
  have h4: "Greeter \<in> set (file_Services greeter_file)" by (simp add: greeter_file_def)
  have h5: "SayHello \<in> set (sd_Methods Greeter)" by (simp add: Greeter_def)
  have h6: "sd_FullName Greeter = ''pkg.Greeter''" by (simp add: Greeter_def)
  have h7: "mth_Name SayHello = ''SayHello''" by (simp add: SayHello_def)
  from getMethodDescriptor_first_match [OF h1 h2 h3 h4 h5 h6 h7]
  obtain md where md: "getMethodDescriptor ?G (''/'' @ ''pkg.Greeter'' @ ''/'' @ ''SayHello'') = Inr md"
    and nm: "mth_Name md = ''SayHello''"
    by blast
  have "getMethodDescriptor ?G ''/pkg.Greeter/SayHello'' = Inr SayHello"
    by (simp add: getMethodDescriptor_def Split_def TrimPrefix_def callback_def greeter_file_def
          Greeter_def SayHello_def)
  with md nm have "getMethodDescriptor ?G ''/pkg.Greeter/SayHello'' = Inr md \<and>
      mth_Name md = ''SayHello'' \<and> md = SayHello"
    by simp
  with h1 h2 h4 h5 h6 h7 show ?thesis by blast
qed

text \<open>
  C4: for a non-nil message descriptor \<^verbatim>\<open>getMessageSchema\<close> succeeds with a pointer to
  a schema that bears the message's full name and has one \<^verbatim>\<open>FieldInfo\<close> per field, in
  declaration order (position \<open>i\<close> for field \<open>i\<close>). Name and number are the field's;
  \<open>repeated\<close> is true iff the field's cardinality is the repeated one; the type is the
  nested message's full name when the field's kind is message, and the name of the kind
  otherwise.
\<close>

theorem getMessageSchema_fields:
  "case getMessageSchema (Some d) h of
     (r, h') \<Rightarrow>
       (\<exists>schema. r = Inr schema \<and> schema < length h' \<and>
          ms_Name (h' ! schema) = msg_FullName d \<and>
          length (ms_Fields (h' ! schema)) = length (msg_Fields d) \<and>
          (\<forall>i < length (msg_Fields d).
             let field = msg_Fields d ! i; fieldInfo = ms_Fields (h' ! schema) ! i
             in fi_Name fieldInfo = fd_Name field \<and>
                fi_Number fieldInfo = fd_Number field \<and>
                (fi_Repeated fieldInfo \<longleftrightarrow> fd_Cardinality field = Repeated) \<and>
                (fd_Kind field = MessageKind \<longrightarrow> fi_Type fieldInfo = fd_Message_FullName field) \<and>
                (fd_Kind field \<noteq> MessageKind \<longrightarrow> fi_Type fieldInfo = Kind_String (fd_Kind field))))"
  by (simp add: getMessageSchema_Some schema_of_def fieldInfo_of_def)

text \<open>
  The message \<open>pkg.Node\<close>: a singular \<open>int64\<close>, a repeated field of the message type
  itself, a repeated string, declared with the numbers 1, 3, 2.
\<close>

theorem getMessageSchema_fields_witness:
  "fst (getMessageSchema (Some Node) []) = Inr 0 \<and>
   map fi_Name (ms_Fields (snd (getMessageSchema (Some Node) []) ! 0)) =
     [''id'', ''children'', ''tags''] \<and>
   map fi_Number (ms_Fields (snd (getMessageSchema (Some Node) []) ! 0)) = [1, 3, 2] \<and>
   map fi_Type (ms_Fields (snd (getMessageSchema (Some Node) []) ! 0)) =
     [''int64'', ''pkg.Node'', ''string''] \<and>
   map fi_Repeated (ms_Fields (snd (getMessageSchema (Some Node) []) ! 0)) =
     [False, True, True]"
  using getMessageSchema_fields [of Node "[]"]
  by (simp add: getMessageSchema_def new_schema_def Node_def)

text \<open>
  C5: the string \<^verbatim>\<open>FormatServices\<close> builds is, service by service, the line
  \<open>  - <name>\<close> followed by one line per method in order: \<open>    * <name>(<input>)
  returns (<output>)\<close> when both type names are non-empty and \<open>    * <name>\<close> otherwise
  (\<open>service_block\<close>, \<open>method_line\<close>). For the one service \<open>pkg.Greeter\<close> with the one
  method \<open>SayHello\<close> from \<open>pkg.HelloRequest\<close> to \<open>pkg.HelloReply\<close> the result is the
  two lines of the specification, each ended by a newline, whatever the schema pointers.
\<close>

theorem FormatServices_lines:
  "FormatServices services = concat (map service_block services) \<and>
   FormatServices
     [\<lparr>si_Name = ''pkg.Greeter'',
       si_Methods = [\<lparr>mi_Name = ''SayHello'', mi_InputType = ''pkg.HelloRequest'',
                      mi_OutputType = ''pkg.HelloReply'',
                      mi_InputSchema = inputSchema, mi_OutputSchema = outputSchema\<rparr>]\<rparr>]
     = ''  - pkg.Greeter'' @ [CHR 0x0A] @
       ''    * SayHello(pkg.HelloRequest) returns (pkg.HelloReply)'' @ [CHR 0x0A]"
  by (simp add: FormatServices_def format_services_eq service_block_def method_line_def)

text \<open>
  C6: for a name \<open>/<service>/<method>\<close> whose segments hold no slash, and a registry in
  which no file declares a service with that full name having a method with that name,
  \<^verbatim>\<open>getMethodDescriptor\<close> fails with the not-found error for that name, and the scan was
  complete: the callback asked for the next file on every file of the registry.
\<close>

theorem getMethodDescriptor_not_found:
  assumes "CHR ''/'' \<notin> set service" and "CHR ''/'' \<notin> set method"
    and "\<forall>fd\<in>set GlobalFiles. \<forall>sd\<in>set (file_Services fd).
           sd_FullName sd = service \<longrightarrow> (\<forall>md\<in>set (sd_Methods sd). mth_Name md \<noteq> method)"
  shows "getMethodDescriptor GlobalFiles (''/'' @ service @ ''/'' @ method) =
           Inl (NotFoundError (''/'' @ service @ ''/'' @ method)) \<and>
         list_all (\<lambda>fd. snd (callback service method fd None)) GlobalFiles"
proof -
  let ?P = "is_match service method"
  let ?name = "''/'' @ service @ ''/'' @ method"
  have parts: "Split (TrimPrefix ?name ''/'') (CHR ''/'') = [service, method]"
    using assms(1,2) by (rule parts_well_formed)
  have none: "\<not> ?P (sd, md)" if "(sd, md) \<in> set (candidates GlobalFiles)" for sd md
  proof -
    from that obtain fd where "fd \<in> set GlobalFiles" "sd \<in> set (file_Services fd)"
      "md \<in> set (sd_Methods sd)"
      by (auto simp: in_candidates_iff)
    with assms(3) have "sd_FullName sd = service \<longrightarrow> mth_Name md \<noteq> method" by blast
    then show ?thesis by (simp add: is_match_def)
  qed
  then have "find ?P (candidates GlobalFiles) = None"
    by (auto simp: find_None_iff)
  then have 1: "getMethodDescriptor GlobalFiles ?name = Inl (NotFoundError ?name)"
    using getMethodDescriptor_parts [OF parts, of GlobalFiles] by simp
  have "snd (callback service method fd None)" if "fd \<in> set GlobalFiles" for fd
  proof -
    have "set (file_pairs fd) \<subseteq> set (candidates GlobalFiles)"
      using that by (auto simp: candidates_def)
    then have "find ?P (file_pairs fd) = None"
      using none by (auto simp: find_None_iff)
    then show ?thesis by (simp add: callback_find)
  qed
  then have 2: "list_all (\<lambda>fd. snd (callback service method fd None)) GlobalFiles"
    by (simp add: list_all_iff)
  from 1 2 show ?thesis by simp
qed

text \<open>
  The service \<open>pkg.Greeter\<close> is loaded but has no method \<open>Missing\<close>, and the service
  \<open>pkg.Absent\<close> is not loaded at all.
\<close>

theorem getMethodDescriptor_not_found_witness:
  "getMethodDescriptor [greeter_file] ''/pkg.Greeter/Missing'' =
     Inl (NotFoundError ''/pkg.Greeter/Missing'') \<and>
   getMethodDescriptor [greeter_file] ''/pkg.Absent/SayHello'' =
     Inl (NotFoundError ''/pkg.Absent/SayHello'')"
proof -
  have h1: "CHR ''/'' \<notin> set ''pkg.Greeter''" and h2: "CHR ''/'' \<notin> set ''Missing''"
    and h3: "CHR ''/'' \<notin> set ''pkg.Absent''" and h4: "CHR ''/'' \<notin> set ''SayHello''"
    by simp_all
  have a: "\<forall>fd\<in>set [greeter_file]. \<forall>sd\<in>set (file_Services fd).
      sd_FullName sd = ''pkg.Greeter'' \<longrightarrow> (\<forall>md\<in>set (sd_Methods sd). mth_Name md \<noteq> ''Missing'')"
    by (simp add: greeter_file_def Greeter_def SayHello_def)
  have b: "\<forall>fd\<in>set [greeter_file]. \<forall>sd\<in>set (file_Services fd).
      sd_FullName sd = ''pkg.Absent'' \<longrightarrow> (\<forall>md\<in>set (sd_Methods sd). mth_Name md \<noteq> ''SayHello'')"
    by (simp add: greeter_file_def Greeter_def SayHello_def)
  from getMethodDescriptor_not_found [OF h1 h2 a] getMethodDescriptor_not_found [OF h3 h4 b]
  show ?thesis by simp
qed

text \<open>
  C7: every \<^verbatim>\<open>MethodInfo\<close> that \<^verbatim>\<open>GetServices\<close> returns has an input schema
  only if its input type name is present, and an output schema only if its output type
  name is present. A type name is present when the string is not empty, which is the test
  of \<^verbatim>\<open>FormatServices\<close> (line 163). The registry is one that the protobuf library
  can hold: the full name of a message is never empty there (\<open>full_names_nonempty\<close>).
\<close>

theorem GetServices_schema_only_with_type_name:
  assumes "full_names_nonempty GlobalFiles"
  shows "case GetServices GlobalFiles serviceInfo h of
      ((services, err), h') \<Rightarrow>
        \<forall>service\<in>set services. \<forall>methodInfo\<in>set (si_Methods service).
          (mi_InputSchema methodInfo \<noteq> None \<longrightarrow> mi_InputType methodInfo \<noteq> '''') \<and>
          (mi_OutputSchema methodInfo \<noteq> None \<longrightarrow> mi_OutputType methodInfo \<noteq> '''')"
proof -
  obtain services err h' where g: "GetServices GlobalFiles serviceInfo h = ((services, err), h')"
    by (metis surj_pair)
  have "(mi_InputSchema mi \<noteq> None \<longrightarrow> mi_InputType mi \<noteq> '''') \<and>
        (mi_OutputSchema mi \<noteq> None \<longrightarrow> mi_OutputType mi \<noteq> '''')"
    if "service \<in> set services" and "mi \<in> set (si_Methods service)" for service mi
  proof -
    from GetServices_each_method [OF g that] obtain sn m
      where "method_resolved GlobalFiles h' sn m mi" by blast
    from method_resolved_present [OF assms this] show ?thesis by blast
  qed
  with g show ?thesis by simp
qed

text \<open>
  In the scenario the names are non-empty; the schemas and type names of the two listed
  methods are present together and absent together.
\<close>

theorem GetServices_schema_only_with_type_name_witness:
  "full_names_nonempty [greeter_file] \<and>
   map (\<lambda>mi. (mi_InputSchema mi, mi_InputType mi, mi_OutputSchema mi, mi_OutputType mi))
     (concat (map si_Methods (fst (fst (GetServices [greeter_file] greeter_server []))))) =
     [(Some 0, ''pkg.HelloRequest'', Some 1, ''pkg.HelloReply''), (None, '''', None, '''')] \<and>
   list_all (\<lambda>service. list_all (\<lambda>mi.
       (mi_InputSchema mi = None \<or> mi_InputType mi \<noteq> '''') \<and>
       (mi_OutputSchema mi = None \<or> mi_OutputType mi \<noteq> '''')) (si_Methods service))
     (fst (fst (GetServices [greeter_file] greeter_server [])))"
proof -
  have ne: "full_names_nonempty [greeter_file]"
    by (simp add: full_names_nonempty_def greeter_file_def Greeter_def SayHello_def
          HelloRequest_def HelloReply_def)
  have val: "fst (fst (GetServices [greeter_file] greeter_server [])) =
     [\<lparr>si_Name = ''pkg.Greeter'',
       si_Methods =
         [\<lparr>mi_Name = ''SayHello'', mi_InputType = ''pkg.HelloRequest'',
           mi_OutputType = ''pkg.HelloReply'',
           mi_InputSchema = Some 0, mi_OutputSchema = Some 1\<rparr>,
          \<lparr>mi_Name = ''Unloaded'', mi_InputType = '''', mi_OutputType = '''',
           mi_InputSchema = None, mi_OutputSchema = None\<rparr>]\<rparr>]"
    by (simp add: GetServices_def greeter_server_def method_body_def getMethodDescriptor_def
          Split_def TrimPrefix_def callback_def greeter_file_def Greeter_def SayHello_def
          getMessageSchema_Some HelloRequest_def HelloReply_def)
  from GetServices_schema_only_with_type_name [OF ne, of greeter_server "[]"]
  have "list_all (\<lambda>service. list_all (\<lambda>mi.
       (mi_InputSchema mi = None \<or> mi_InputType mi \<noteq> '''') \<and>
       (mi_OutputSchema mi = None \<or> mi_OutputType mi \<noteq> '''')) (si_Methods service))
     (fst (fst (GetServices [greeter_file] greeter_server [])))"
    by (auto simp: list_all_iff split: prod.splits)
  with ne val show ?thesis by simp
qed

text \<open>
  C8: \<^verbatim>\<open>getMessageSchema\<close> gives structurally equal results when called twice on the
  same descriptor. For two calls in a row: on nil both fail with the nil-descriptor error
  and the heap is unchanged; otherwise they return two distinct pointers \<open>p1\<close> and \<open>p2\<close>
  whose schemas are equal, the second call leaves the first schema and the objects that
  existed before as they were. For two calls in arbitrary heaps \<open>ha\<close> and \<open>hb\<close>: the
  same error, or two pointers to equal schemas. Equality of \<^verbatim>\<open>MessageSchema\<close> records
  is equality of the name and of the field sequence, field by field in name, number,
  type and repeated.
\<close>

theorem getMessageSchema_twice:
  "(case getMessageSchema msgDesc h of
     (r1, h1) \<Rightarrow>
       (case getMessageSchema msgDesc h1 of
          (r2, h2) \<Rightarrow>
            (case msgDesc of
               None \<Rightarrow> r1 = Inl NilDescriptorError \<and> r2 = Inl NilDescriptorError \<and>
                        h1 = h \<and> h2 = h
             | Some d \<Rightarrow>
                 (\<exists>p1 p2. r1 = Inr p1 \<and> r2 = Inr p2 \<and> p1 \<noteq> p2 \<and>
                    p1 < length h1 \<and> p1 < length h2 \<and> p2 < length h2 \<and>
                    h2 ! p1 = h1 ! p1 \<and> h2 ! p2 = h1 ! p1 \<and>
                    take (length h) h2 = h)))) \<and>
   (case getMessageSchema msgDesc ha of
     (ra, ha') \<Rightarrow>
       (case getMessageSchema msgDesc hb of
          (rb, hb') \<Rightarrow>
            (case msgDesc of
               None \<Rightarrow> ra = rb
             | Some d \<Rightarrow>
                 (\<exists>pa pb. ra = Inr pa \<and> rb = Inr pb \<and> pa < length ha' \<and> pb < length hb' \<and>
                    ha' ! pa = hb' ! pb))))"
  by (cases msgDesc) (simp_all add: getMessageSchema_Some getMessageSchema_None nth_append)

text \<open>
  C9: the error that \<^verbatim>\<open>GetServices\<close> returns is nil, for every registry, every server
  registry and every heap.
\<close>

theorem GetServices_error_nil:
  "snd (fst (GetServices GlobalFiles serviceInfo h)) = None"
  by (simp add: GetServices_def split: prod.splits)

text \<open>
  C10: when every message that is the input or output of a registered method has a
  non-empty full name, the input and output type names of every \<^verbatim>\<open>MethodInfo\<close> that
  \<^verbatim>\<open>GetServices\<close> returns are both non-empty or both empty.
\<close>

theorem GetServices_type_names_together:
  assumes "full_names_nonempty GlobalFiles"
  shows "case GetServices GlobalFiles serviceInfo h of
      ((services, err), h') \<Rightarrow>
        \<forall>service\<in>set services. \<forall>methodInfo\<in>set (si_Methods service).
          (mi_InputType methodInfo \<noteq> '''' \<and> mi_OutputType methodInfo \<noteq> '''') \<or>
          (mi_InputType methodInfo = '''' \<and> mi_OutputType methodInfo = '''')"
proof -
  obtain services err h' where g: "GetServices GlobalFiles serviceInfo h = ((services, err), h')"
    by (metis surj_pair)
  have "(mi_InputType mi \<noteq> '''' \<and> mi_OutputType mi \<noteq> '''') \<or>
        (mi_InputType mi = '''' \<and> mi_OutputType mi = '''')"
    if "service \<in> set services" and "mi \<in> set (si_Methods service)" for service mi
  proof -
    from GetServices_each_method [OF g that] obtain sn m
      where "method_resolved GlobalFiles h' sn m mi" by blast
    from method_resolved_present [OF assms this] show ?thesis by blast
  qed
  with g show ?thesis by simp
qed

text \<open>In the scenario one method has both type names and the other has neither.\<close>

theorem GetServices_type_names_together_witness:
  "full_names_nonempty [greeter_file] \<and>
   list_all (\<lambda>service. list_all (\<lambda>mi.
       (mi_InputType mi \<noteq> '''' \<and> mi_OutputType mi \<noteq> '''') \<or>
       (mi_InputType mi = '''' \<and> mi_OutputType mi = '''')) (si_Methods service))
     (fst (fst (GetServices [greeter_file] greeter_server []))) \<and>
   map (\<lambda>mi. (mi_InputType mi, mi_OutputType mi))
     (concat (map si_Methods (fst (fst (GetServices [greeter_file] greeter_server []))))) =
     [(''pkg.HelloRequest'', ''pkg.HelloReply''), ('''', '''')]"
proof -
  have ne: "full_names_nonempty [greeter_file]"
    by (simp add: full_names_nonempty_def greeter_file_def Greeter_def SayHello_def
          HelloRequest_def HelloReply_def)
  have val: "map (\<lambda>mi. (mi_InputType mi, mi_OutputType mi))
     (concat (map si_Methods (fst (fst (GetServices [greeter_file] greeter_server []))))) =
     [(''pkg.HelloRequest'', ''pkg.HelloReply''), ('''', '''')]"
    by (simp add: GetServices_def greeter_server_def method_body_def getMethodDescriptor_def
          Split_def TrimPrefix_def callback_def greeter_file_def Greeter_def SayHello_def
          getMessageSchema_Some HelloRequest_def HelloReply_def)
  from GetServices_type_names_together [OF ne, of greeter_server "[]"]
  have "list_all (\<lambda>service. list_all (\<lambda>mi.
       (mi_InputType mi \<noteq> '''' \<and> mi_OutputType mi \<noteq> '''') \<or>
       (mi_InputType mi = '''' \<and> mi_OutputType mi = '''')) (si_Methods service))
     (fst (fst (GetServices [greeter_file] greeter_server [])))"
    by (auto simp: list_all_iff split: prod.splits)
  with ne val show ?thesis by simp
qed

end
